theory Spec2Isabelle
  imports Main "HOL-Library.Multiset"
begin

section \<open>Values, tables and exceptions\<close>

text \<open>
  The program (\<^verbatim>\<open>DataETL.py\<close>) is a class with three methods around pandas data frames.
  A date-time value is either naive (a wall-clock reading without offset) or aware (a
  wall-clock reading together with its offset from UTC); both readings are counted in
  nanoseconds, as pandas does.
\<close>

datatype stamp = Naive int | Aware int int

text \<open>The point on the UTC time line; a naive reading is taken as UTC (\<^verbatim>\<open>utc=True\<close>).\<close>

fun instant :: "stamp \<Rightarrow> int" where
  "instant (Naive t) = t"
| "instant (Aware t off) = t - off"

fun to_utc :: "stamp \<Rightarrow> stamp" where
  "to_utc (Naive t) = Aware t 0"
| "to_utc (Aware t off) = Aware (t - off) 0"

text \<open>
  A cell of a data frame. \<open>Null\<close> stands for the missing value of pandas (NaN, None and
  NaT alike: \<^verbatim>\<open>dropna\<close> removes all three).
\<close>

datatype cell = Null | Str string | Num int | Time stamp

text \<open>
  A data frame: its column labels in order (pandas allows a label to occur twice) and its
  rows in order, each row holding one cell per column.
\<close>

record frame =
  columns :: "string list"
  rows :: "cell list list"

definition len :: "frame \<Rightarrow> nat" where
  "len df = length (rows df)"

text \<open>\<^verbatim>\<open>DataFrame.empty\<close>: some axis has length 0.\<close>

definition df_empty :: "frame \<Rightarrow> bool" where
  "df_empty df = (columns df = [] \<or> rows df = [])"

datatype error = KeyError string | ValueError | IndexError | ReadError string

datatype log_event =
    Scanning string
  | Loaded string
  | LoadFailed string
  | NoDataframes
  | Preprocessing
  | PreprocessingComplete nat
  | NoData
  | Writing string
  | Created string nat
  | DbFailed

section \<open>The pandas operations the program calls\<close>

text \<open>Positions of a label among the columns, and the cell of a row at a position.\<close>

definition positions :: "string \<Rightarrow> string list \<Rightarrow> nat list" where
  "positions key cols = filter (\<lambda>i. cols ! i = key) [0..<length cols]"

definition cell_at :: "nat \<Rightarrow> cell list \<Rightarrow> cell" where
  "cell_at j r = (if j < length r then r ! j else Null)"

text \<open>The value of a row under a label (the first column of that label), \<open>Null\<close> when absent.\<close>

definition lookup_cell :: "string list \<Rightarrow> cell list \<Rightarrow> string \<Rightarrow> cell" where
  "lookup_cell cols r c = (case positions c cols of [] \<Rightarrow> Null | j # _ \<Rightarrow> cell_at j r)"

text \<open>
  \<^verbatim>\<open>pd.concat(all_dfs, ignore_index=True)\<close>: the columns are the union of the inputs'
  columns in order of first appearance, the rows are the inputs' rows one table after the
  other, each row re-indexed to the new columns with \<open>Null\<close> where its table has no such
  column. The frames that \<^verbatim>\<open>pd.read_csv\<close> and \<^verbatim>\<open>pd.read_parquet\<close> return have distinct
  labels (a repeated header is renamed on reading); a frame with a repeated label is read
  here by the first column of that label.
\<close>

definition union_columns :: "frame list \<Rightarrow> string list" where
  "union_columns dfs = rev (remdups (rev (concat (map columns dfs))))"

definition reindex :: "string list \<Rightarrow> frame \<Rightarrow> cell list list" where
  "reindex cols df = map (\<lambda>r. map (lookup_cell (columns df) r) cols) (rows df)"

definition pd_concat :: "frame list \<Rightarrow> frame" where
  "pd_concat dfs =
     \<lparr>columns = union_columns dfs,
      rows = concat (map (reindex (union_columns dfs)) dfs)\<rparr>"

text \<open>\<^verbatim>\<open>df.rename(columns={old: new}, inplace=True)\<close>: every label \<open>old\<close> becomes \<open>new\<close>.\<close>

definition rename :: "string \<Rightarrow> string \<Rightarrow> frame \<Rightarrow> frame" where
  "rename old new df = df\<lparr>columns := map (\<lambda>c. if c = old then new else c) (columns df)\<rparr>"

text \<open>
  \<^verbatim>\<open>df[key]\<close>: KeyError when no column has the label, the column as a series when exactly
  one has it, and a data frame of all the columns of that label when several have it.
\<close>

datatype selection = Series "cell list" | SubFrame "cell list list"

definition getitem :: "frame \<Rightarrow> string \<Rightarrow> error + selection" where
  "getitem df key =
     (case positions key (columns df) of
        [] \<Rightarrow> Inl (KeyError key)
      | [j] \<Rightarrow> Inr (Series (map (cell_at j) (rows df)))
      | js \<Rightarrow> Inr (SubFrame (map (\<lambda>r. map (\<lambda>j. cell_at j r) js) (rows df))))"

text \<open>
  \<^verbatim>\<open>pd.to_datetime(arg, errors='coerce', utc=True)\<close>. On a series pandas takes the first
  value that is not missing, infers one format from it, and reads every scalar of the
  series in that format: whether a scalar is read as a date-time depends on the column it
  stands in. The parser of pandas is a parameter \<open>parse\<close> here; it is given the first
  non-missing value of the column and the scalar (\<open>None\<close>: in this column the scalar is
  not read as a date-time; with \<^verbatim>\<open>errors='coerce'\<close> it becomes the missing value instead of
  an exception). A missing value stays missing, a date-time value is kept. Every value
  obtained is then converted to UTC. On a data frame pandas tries to assemble dates from
  columns named year, month and day, and raises ValueError for the frames that \<open>getitem\<close>
  returns (their labels are all equal).
\<close>

definition coerce :: "(cell \<Rightarrow> stamp option) \<Rightarrow> cell \<Rightarrow> stamp option" where
  "coerce parse c = (case c of Null \<Rightarrow> None | Time st \<Rightarrow> Some st | _ \<Rightarrow> parse c)"

definition to_datetime_cell :: "(cell \<Rightarrow> stamp option) \<Rightarrow> cell \<Rightarrow> cell" where
  "to_datetime_cell parse c =
     (case coerce parse c of None \<Rightarrow> Null | Some st \<Rightarrow> Time (to_utc st))"

definition to_datetime ::
  "(cell option \<Rightarrow> cell \<Rightarrow> stamp option) \<Rightarrow> selection \<Rightarrow> error + cell list" where
  "to_datetime parse sel =
     (case sel of
        Series col \<Rightarrow>
          Inr (map (to_datetime_cell (parse (find (\<lambda>c. c \<noteq> Null) col))) col)
      | SubFrame m \<Rightarrow> Inl ValueError)"

text \<open>
  \<^verbatim>\<open>df[key] = col\<close>: the column of that label is replaced (every column of that label when
  there are several); a new column is appended when there is none.
\<close>

definition setitem :: "frame \<Rightarrow> string \<Rightarrow> cell list \<Rightarrow> frame" where
  "setitem df key col =
     (case positions key (columns df) of
        [] \<Rightarrow> df\<lparr>columns := columns df @ [key],
                 rows := map (\<lambda>(r, c). r @ [c]) (zip (rows df) col)\<rparr>
      | js \<Rightarrow> df\<lparr>rows := map (\<lambda>(r, c). fold (\<lambda>j r'. r'[j := c]) js r) (zip (rows df) col)\<rparr>)"

text \<open>\<^verbatim>\<open>df.dropna(subset=[key], inplace=True)\<close>: rows with a missing value under \<open>key\<close> go.\<close>

definition dropna :: "string \<Rightarrow> frame \<Rightarrow> error + frame" where
  "dropna key df =
     (let js = positions key (columns df) in
      if js = [] then Inl (KeyError key)
      else Inr (df\<lparr>rows := filter (\<lambda>r. \<forall>j \<in> set js. cell_at j r \<noteq> Null) (rows df)\<rparr>))"

text \<open>
  \<^verbatim>\<open>df.sort_values(key, inplace=True)\<close> on a date-time column, with the defaults
  \<^verbatim>\<open>ascending=True, kind='quicksort', na_position='last'\<close>. pandas sorts the positions of
  the non-missing values by handing their keys to the sorting routine of the chosen kind,
  then appends the positions of the missing values. The routine is the parameter
  \<open>argsort\<close>: from a list of keys it returns positions into that list. ValueError when the
  label is not unique.
\<close>

definition sort_key_of :: "cell \<Rightarrow> int" where
  "sort_key_of c = (case c of Time st \<Rightarrow> instant st | _ \<Rightarrow> 0)"

definition sort_values :: "(int list \<Rightarrow> nat list) \<Rightarrow> string \<Rightarrow> frame \<Rightarrow> error + frame" where
  "sort_values argsort key df =
     (case positions key (columns df) of
        [] \<Rightarrow> Inl (KeyError key)
      | [j] \<Rightarrow>
          (let col = map (cell_at j) (rows df);
               idx = [0..<length col];
               non_nan_idx = filter (\<lambda>i. col ! i \<noteq> Null) idx;
               nan_idx = filter (\<lambda>i. col ! i = Null) idx;
               non_nans = map (\<lambda>i. sort_key_of (col ! i)) non_nan_idx;
               order = argsort non_nans
           in if \<forall>k \<in> set order. k < length non_nan_idx
              then Inr (df\<lparr>rows := map (\<lambda>i. rows df ! i)
                                     (map (\<lambda>k. non_nan_idx ! k) order @ nan_idx)\<rparr>)
              else Inl IndexError)
      | js \<Rightarrow> Inl ValueError)"

text \<open>
  What pandas documents of a sorting routine of any kind: the positions returned are a
  permutation of the positions of the keys, and the keys read in that order ascend. Only
  the kinds \<^verbatim>\<open>'mergesort'\<close> and \<^verbatim>\<open>'stable'\<close> promise more, and the program asks for neither.
\<close>

definition sorts :: "(int list \<Rightarrow> nat list) \<Rightarrow> bool" where
  "sorts argsort =
     (\<forall>ks. mset (argsort ks) = mset [0..<length ks]
         \<and> sorted (map (\<lambda>i. ks ! i) (argsort ks)))"

section \<open>The class DataETL\<close>

text \<open>
  The fields of an instance; \<open>logged\<close> collects what the methods hand to the module's
  logger.
\<close>

record etl =
  directory :: string
  dataframes :: "(string \<times> frame) list"
  errors :: "(string \<times> error) list"
  combined_df :: "frame option"
  logged :: "log_event list"

definition log :: "log_event \<Rightarrow> etl \<Rightarrow> etl" where
  "log ev self = self\<lparr>logged := logged self @ [ev]\<rparr>"

definition DataETL :: "string \<Rightarrow> etl" where
  "DataETL dir =
     \<lparr>directory = dir, dataframes = [], errors = [], combined_df = None, logged = []\<rparr>"

subsection \<open>load_files\<close>

text \<open>
  An entry of the directory: its name, and what \<^verbatim>\<open>pd.read_csv\<close> and \<^verbatim>\<open>pd.read_parquet\<close>
  return for it (a data frame, or the exception raised).
\<close>

record entry =
  fname :: string
  as_csv :: "error + frame"
  as_parquet :: "error + frame"

text \<open>\<^verbatim>\<open>Path.suffix\<close>: from the last dot on, unless that dot is the first or last character.\<close>

fun rfind :: "char \<Rightarrow> string \<Rightarrow> nat option" where
  "rfind c [] = None"
| "rfind c (x # xs) =
     (case rfind c xs of
        Some i \<Rightarrow> Some (Suc i)
      | None \<Rightarrow> if x = c then Some 0 else None)"

definition suffix :: "string \<Rightarrow> string" where
  "suffix name =
     (case rfind (CHR ''.'') name of
        None \<Rightarrow> []
      | Some i \<Rightarrow> if 0 < i \<and> i < length name - 1 then drop i name else [])"

text \<open>\<^verbatim>\<open>str.lower\<close> on the ASCII letters.\<close>

definition lower_char :: "char \<Rightarrow> char" where
  "lower_char c =
     (case map_of (zip ''ABCDEFGHIJKLMNOPQRSTUVWXYZ'' ''abcdefghijklmnopqrstuvwxyz'') c of
        Some d \<Rightarrow> d
      | None \<Rightarrow> c)"

definition lower :: "string \<Rightarrow> string" where
  "lower s = map lower_char s"

definition load_file :: "entry \<Rightarrow> etl \<Rightarrow> etl" where
  "load_file f self =
     (if lower (suffix (fname f)) = ''.csv'' then
        (case as_csv f of
           Inr df \<Rightarrow> log (Loaded (fname f))
                      (self\<lparr>dataframes := dataframes self @ [(fname f, df)]\<rparr>)
         | Inl e \<Rightarrow> log (LoadFailed (fname f))
                      (self\<lparr>errors := errors self @ [(fname f, e)]\<rparr>))
      else if lower (suffix (fname f)) \<in> set [''.parquet'', ''.pq''] then
        (case as_parquet f of
           Inr df \<Rightarrow> log (Loaded (fname f))
                      (self\<lparr>dataframes := dataframes self @ [(fname f, df)]\<rparr>)
         | Inl e \<Rightarrow> log (LoadFailed (fname f))
                      (self\<lparr>errors := errors self @ [(fname f, e)]\<rparr>))
      else self)"

text \<open>The loop over \<^verbatim>\<open>self.directory.glob("*")\<close>; \<open>listing\<close> is what the glob yields.\<close>

fun load_loop :: "entry list \<Rightarrow> etl \<Rightarrow> etl" where
  "load_loop [] self = self"
| "load_loop (f # fs) self = load_loop fs (load_file f self)"

definition load_files :: "entry list \<Rightarrow> etl \<Rightarrow> etl" where
  "load_files listing self = load_loop listing (log (Scanning (directory self)) self)"

subsection \<open>preprocess_data\<close>

text \<open>
  The step that standardizes the timestamp column: when the merged frame has a column
  \<^verbatim>\<open>DATETIME\<close> it is renamed to \<^verbatim>\<open>datetime\<close>, in place.
\<close>

definition standardize :: "frame \<Rightarrow> frame" where
  "standardize df =
     (if ''DATETIME'' \<in> set (columns df) then rename ''DATETIME'' ''datetime'' df else df)"

text \<open>
  The assignment \<^verbatim>\<open>df['datetime'] = pd.to_datetime(df['datetime'], errors='coerce', utc=True)\<close>:
  read the column, convert it, write it back.
\<close>

definition assign_datetime ::
  "(cell option \<Rightarrow> cell \<Rightarrow> stamp option) \<Rightarrow> frame \<Rightarrow> error + frame" where
  "assign_datetime parse df =
     (case getitem df ''datetime'' of
        Inl e \<Rightarrow> Inl e
      | Inr sel \<Rightarrow>
          (case to_datetime parse sel of
             Inl e \<Rightarrow> Inl e
           | Inr col \<Rightarrow> Inr (setitem df ''datetime'' col)))"

text \<open>
  The method returns normally (\<open>Inr\<close>, with the instance as it leaves it) or an exception
  of pandas leaves it (\<open>Inl\<close>, with the exception and the instance as it is at that
  moment: the merged frame is assigned, and renamed in place, before the column is read).
\<close>

definition preprocess_data ::
  "(cell option \<Rightarrow> cell \<Rightarrow> stamp option) \<Rightarrow> (int list \<Rightarrow> nat list) \<Rightarrow> etl \<Rightarrow>
   (error \<times> etl) + etl" where
  "preprocess_data parse argsort self =
     (if dataframes self = [] then Inr (log NoDataframes self)
      else
        let self = log Preprocessing self;
            all_dfs = map snd (dataframes self);
            df = standardize (pd_concat all_dfs);
            self = self\<lparr>combined_df := Some df\<rparr>
        in case assign_datetime parse df of
             Inl e \<Rightarrow> Inl (e, self)
           | Inr df \<Rightarrow>
        let self = self\<lparr>combined_df := Some df\<rparr>
        in case dropna ''datetime'' df of
             Inl e \<Rightarrow> Inl (e, self)
           | Inr df \<Rightarrow>
        let self = self\<lparr>combined_df := Some df\<rparr>
        in case sort_values argsort ''datetime'' df of
             Inl e \<Rightarrow> Inl (e, self)
           | Inr df \<Rightarrow>
        Inr (log (PreprocessingComplete (len df)) (self\<lparr>combined_df := Some df\<rparr>)))"

text \<open>The merged table: what the method holds after the merge and the renaming.\<close>

definition merged :: "etl \<Rightarrow> frame" where
  "merged self = standardize (pd_concat (map snd (dataframes self)))"

text \<open>The timestamp of a row of a frame, and the timestamps of a frame, row by row.\<close>

definition datetime_of :: "frame \<Rightarrow> cell list \<Rightarrow> cell" where
  "datetime_of df r = lookup_cell (columns df) r ''datetime''"

definition timestamps :: "frame \<Rightarrow> cell list" where
  "timestamps df = map (datetime_of df) (rows df)"

text \<open>
  The timestamps of the combined table that a call of the method leaves on the instance,
  whether it returns or raises.
\<close>

definition left_behind :: "(error \<times> etl) + etl \<Rightarrow> cell list option" where
  "left_behind outcome =
     (case outcome of
        Inl (e, self) \<Rightarrow> map_option timestamps (combined_df self)
      | Inr self \<Rightarrow> map_option timestamps (combined_df self))"

text \<open>
  What the three calls on the timestamp column amount to when the label \<^verbatim>\<open>datetime\<close> stands
  at the single position \<open>j\<close>: the column converted by the parser that the column fixes,
  the rows without a timestamp removed, the rows taken in a given order of positions.
\<close>

definition column_parser ::
  "(cell option \<Rightarrow> cell \<Rightarrow> stamp option) \<Rightarrow> nat \<Rightarrow> frame \<Rightarrow> cell \<Rightarrow> stamp option" where
  "column_parser parse j df = parse (find (\<lambda>c. c \<noteq> Null) (map (cell_at j) (rows df)))"

definition coerce_at :: "(cell \<Rightarrow> stamp option) \<Rightarrow> nat \<Rightarrow> frame \<Rightarrow> frame" where
  "coerce_at parse j df =
     df\<lparr>rows := map (\<lambda>r. r[j := to_datetime_cell parse (cell_at j r)]) (rows df)\<rparr>"

definition drop_at :: "nat \<Rightarrow> frame \<Rightarrow> frame" where
  "drop_at j df = df\<lparr>rows := filter (\<lambda>r. cell_at j r \<noteq> Null) (rows df)\<rparr>"

definition keys_at :: "nat \<Rightarrow> frame \<Rightarrow> int list" where
  "keys_at j df = map (\<lambda>r. sort_key_of (cell_at j r)) (rows df)"

definition reorder :: "nat list \<Rightarrow> frame \<Rightarrow> frame" where
  "reorder order df = df\<lparr>rows := map (\<lambda>i. rows df ! i) order\<rparr>"

definition presort :: "(cell option \<Rightarrow> cell \<Rightarrow> stamp option) \<Rightarrow> nat \<Rightarrow> frame \<Rightarrow> frame" where
  "presort parse j df = drop_at j (coerce_at (column_parser parse j df) j df)"

subsection \<open>create_database and run\<close>

text \<open>
  The stores on disk: per path the tables of the SQLite file there, per table name its
  content. What SQLite does when asked is the parameter \<open>io\<close>. The connection cannot be
  opened: nothing changes. Or it opens (creating the file when there is none) and
  \<^verbatim>\<open>to_sql\<close> with \<^verbatim>\<open>if_exists='replace'\<close> drops the table and creates it anew, which SQLite
  commits at once; then either the insertion of the rows fails and is rolled back, so that
  the table is left with the new columns and no rows, or it goes through.
\<close>

type_synonym store = "string \<Rightarrow> (string \<Rightarrow> frame option) option"

datatype sqlite = Succeeds | ConnectFails | WriteFails

definition tables :: "store \<Rightarrow> string \<Rightarrow> (string \<Rightarrow> frame option)" where
  "tables st db_path = (case st db_path of None \<Rightarrow> Map.empty | Some ts \<Rightarrow> ts)"

definition create_database ::
  "sqlite \<Rightarrow> string \<Rightarrow> string \<Rightarrow> etl \<Rightarrow> store \<Rightarrow> etl \<times> store" where
  "create_database io db_path table_name self st =
     (case combined_df self of
        None \<Rightarrow> (log NoData self, st)
      | Some df \<Rightarrow>
          if df_empty df then (log NoData self, st)
          else
            let self = log (Writing db_path) self
            in case io of
                 ConnectFails \<Rightarrow> (log DbFailed self, st)
               | WriteFails \<Rightarrow>
                   (log DbFailed self,
                    st(db_path := Some ((tables st db_path)(table_name := Some (df\<lparr>rows := []\<rparr>)))))
               | Succeeds \<Rightarrow>
                   (log (Created table_name (len df)) self,
                    st(db_path := Some ((tables st db_path)(table_name := Some df)))))"

text \<open>
  \<open>run\<close> returns the count together with the instance and the stores as it leaves them, or
  the exception that \<open>preprocess_data\<close> let through.
\<close>

definition run ::
  "(cell option \<Rightarrow> cell \<Rightarrow> stamp option) \<Rightarrow> (int list \<Rightarrow> nat list) \<Rightarrow> entry list \<Rightarrow>
   sqlite \<Rightarrow> string \<Rightarrow> string \<Rightarrow> etl \<Rightarrow> store \<Rightarrow>
   (error \<times> etl \<times> store) + (nat \<times> etl \<times> store)" where
  "run parse argsort listing io db_path table_name self st =
     (let self = load_files listing self
      in case preprocess_data parse argsort self of
           Inl (e, self) \<Rightarrow> Inl (e, self, st)
         | Inr self \<Rightarrow>
             (case create_database io db_path table_name self st of
                (self, st) \<Rightarrow>
                  Inr (case combined_df self of Some df \<Rightarrow> len df | None \<Rightarrow> 0, self, st)))"

section \<open>Sample inputs\<close>

text \<open>A sorting routine that meets \<open>sorts\<close>: insertion sort on the keys with their positions.\<close>

definition stable_argsort :: "int list \<Rightarrow> nat list" where
  "stable_argsort ks = map snd (sort_key fst (zip ks [0..<length ks]))"

text \<open>
  A parser for three strings, all on 2024-01-01 and counted in nanoseconds since 1970:
  10:00 with the designator Z, 12:00 at +02:00, and 09:00 without offset. The first two
  have the format with an offset, the third the format without. In a column whose first
  non-missing value has one of the two formats only the strings of that format are read;
  when the first value has neither, no format is inferred and each string is read by
  itself.
\<close>

datatype sample_fmt = With_offset | Without_offset

definition sample_format :: "cell \<Rightarrow> sample_fmt option" where
  "sample_format c =
     (if c = Str ''2024-01-01T10:00:00Z'' then Some With_offset
      else if c = Str ''2024-01-01T12:00:00+02:00'' then Some With_offset
      else if c = Str ''2024-01-01T09:00:00'' then Some Without_offset
      else None)"

definition sample_value :: "cell \<Rightarrow> stamp option" where
  "sample_value c =
     (if c = Str ''2024-01-01T10:00:00Z'' then Some (Aware 1704103200000000000 0)
      else if c = Str ''2024-01-01T12:00:00+02:00''
        then Some (Aware 1704110400000000000 7200000000000)
      else if c = Str ''2024-01-01T09:00:00'' then Some (Naive 1704099600000000000)
      else None)"

definition sample_parse :: "cell option \<Rightarrow> cell \<Rightarrow> stamp option" where
  "sample_parse first c =
     (case first of
        None \<Rightarrow> None
      | Some v \<Rightarrow>
          (case sample_format v of
             None \<Rightarrow> sample_value c
           | Some fm \<Rightarrow> if sample_format c = Some fm then sample_value c else None))"

text \<open>The two files of the scenario in the specification.\<close>

definition a_csv :: frame where
  "a_csv = \<lparr>columns = [''DATETIME'', ''val''],
            rows = [[Str ''2024-01-01T10:00:00Z'', Num 1]]\<rparr>"

definition b_csv :: frame where
  "b_csv = \<lparr>columns = [''datetime'', ''val''],
            rows = [[Str ''2024-01-01T09:00:00'', Num 2]]\<rparr>"

definition csv_entry :: "string \<Rightarrow> frame \<Rightarrow> entry" where
  "csv_entry name df =
     \<lparr>fname = name, as_csv = Inr df, as_parquet = Inl (ReadError ''not a parquet file'')\<rparr>"

definition scenario_dir :: "entry list" where
  "scenario_dir = [csv_entry ''a.csv'' a_csv, csv_entry ''b.csv'' b_csv]"

text \<open>
  A file with two events at the same instant (10:00 UTC, once written with Z and once at
  +02:00), an earlier one written without offset, a string that is no date and a missing
  value; a file without any timestamp column; a file whose only timestamp is no date.
\<close>

definition events_csv :: frame where
  "events_csv = \<lparr>columns = [''datetime'', ''val''],
     rows = [[Str ''2024-01-01T10:00:00Z'', Num 1],
             [Str ''not-a-date'', Num 3],
             [Str ''2024-01-01T12:00:00+02:00'', Num 4],
             [Str ''2024-01-01T09:00:00'', Num 2],
             [Null, Num 5]]\<rparr>"

definition names_csv :: frame where
  "names_csv = \<lparr>columns = [''name'', ''val''], rows = [[Str ''x'', Num 7]]\<rparr>"

definition junk_csv :: frame where
  "junk_csv = \<lparr>columns = [''datetime'', ''val''], rows = [[Str ''not-a-date'', Num 3]]\<rparr>"

text \<open>
  A fresh instance after \<open>load_files\<close> on a directory holding only the events file, and
  the instance that \<open>preprocess_data\<close> makes of it: the first timestamp fixes the format with
  an offset, so the two events written with an offset are read and the rest is removed.
\<close>

definition events_loaded :: etl where
  "events_loaded = load_files [csv_entry ''events.csv'' events_csv] (DataETL ''data'')"

definition events_out :: frame where
  "events_out = \<lparr>columns = [''datetime'', ''val''],
     rows = [[Time (Aware 1704103200000000000 0), Num 1],
             [Time (Aware 1704103200000000000 0), Num 4]]\<rparr>"

definition events_done :: etl where
  "events_done =
     \<lparr>directory = ''data'', dataframes = [(''events.csv'', events_csv)], errors = [],
      combined_df = Some events_out,
      logged = [Scanning ''data'', Loaded ''events.csv'', Preprocessing,
                PreprocessingComplete 2]\<rparr>"

text \<open>
  The instances that \<open>preprocess_data\<close> makes of a fresh instance loaded with the second
  scenario file alone, and with a file whose only timestamp is no date; and a fresh instance
  loaded with the file that has no timestamp column.
\<close>

definition b_out :: frame where
  "b_out = \<lparr>columns = [''datetime'', ''val''],
            rows = [[Time (Aware 1704099600000000000 0), Num 2]]\<rparr>"

definition b_done :: etl where
  "b_done =
     \<lparr>directory = ''data'', dataframes = [(''b.csv'', b_csv)], errors = [],
      combined_df = Some b_out,
      logged = [Scanning ''data'', Loaded ''b.csv'', Preprocessing, PreprocessingComplete 1]\<rparr>"

definition junk_out :: frame where
  "junk_out = \<lparr>columns = [''datetime'', ''val''], rows = []\<rparr>"

definition junk_done :: etl where
  "junk_done =
     \<lparr>directory = ''data'', dataframes = [(''junk.csv'', junk_csv)], errors = [],
      combined_df = Some junk_out,
      logged = [Scanning ''data'', Loaded ''junk.csv'', Preprocessing,
                PreprocessingComplete 0]\<rparr>"

definition names_loaded :: etl where
  "names_loaded = load_files [csv_entry ''names.csv'' names_csv] (DataETL ''data'')"

section \<open>Facts about the pandas operations\<close>

lemma positions_set: "set (positions key cols) = {i. i < length cols \<and> cols ! i = key}"
  by (auto simp: positions_def)

lemma positions_Nil_iff: "positions key cols = [] \<longleftrightarrow> key \<notin> set cols"
proof -
  have "positions key cols = [] \<longleftrightarrow> set (positions key cols) = {}"
    by simp
  also have "\<dots> \<longleftrightarrow> key \<notin> set cols"
    unfolding positions_set by (auto simp: in_set_conv_nth)
  finally show ?thesis .
qed

lemma distinct_positions: "distinct (positions key cols)"
  by (simp add: positions_def)

lemma singleton_list: "distinct xs \<Longrightarrow> set xs = {j} \<Longrightarrow> xs = [j]"
  by (cases xs) (auto simp: subset_singleton_iff)

lemma positions_distinct_cols:
  assumes "distinct cols" "key \<in> set cols"
  shows "\<exists>j. positions key cols = [j]"
proof -
  from assms(2) obtain j where j: "j < length cols" "cols ! j = key"
    by (auto simp: in_set_conv_nth)
  have "set (positions key cols) = {j}"
    unfolding positions_set using j assms(1) by (auto simp: nth_eq_iff_index_eq)
  with distinct_positions have "positions key cols = [j]"
    by (rule singleton_list)
  then show ?thesis ..
qed

lemma distinct_union_columns: "distinct (union_columns dfs)"
  by (simp add: union_columns_def)

lemma set_union_columns: "set (union_columns dfs) = (\<Union>df \<in> set dfs. set (columns df))"
  by (simp add: union_columns_def)

lemma length_reindex: "length (reindex cols df) = len df"
  by (simp add: reindex_def len_def)

lemma len_pd_concat: "len (pd_concat dfs) = sum_list (map len dfs)"
  by (simp add: pd_concat_def len_def [abs_def] length_concat comp_def reindex_def)

lemma row_length_pd_concat:
  "r \<in> set (rows (pd_concat dfs)) \<Longrightarrow> length r = length (columns (pd_concat dfs))"
  by (auto simp: pd_concat_def reindex_def)

lemma nth_concat_block:
  "k < length xss \<Longrightarrow> i < length (xss ! k) \<Longrightarrow>
   concat xss ! (sum_list (map length (take k xss)) + i) = xss ! k ! i"
proof (induction xss arbitrary: k)
  case Nil
  then show ?case by simp
next
  case (Cons xs xss)
  show ?case
  proof (cases k)
    case 0
    with Cons.prems show ?thesis by (simp add: nth_append)
  next
    case (Suc k')
    with Cons.prems Cons.IH [of k'] show ?thesis by (simp add: nth_append)
  qed
qed

lemma positions_absent: "c \<notin> set cols \<Longrightarrow> positions c cols = []"
  by (simp add: positions_Nil_iff)

lemma lookup_cell_absent: "c \<notin> set cols \<Longrightarrow> lookup_cell cols r c = Null"
  by (simp add: lookup_cell_def positions_absent)

lemma lookup_cell_map:
  assumes "distinct cols"
  shows "lookup_cell cols (map f cols) c = (if c \<in> set cols then f c else Null)"
proof (cases "c \<in> set cols")
  case True
  with assms obtain j where j: "positions c cols = [j]"
    using positions_distinct_cols by blast
  then have "j \<in> set (positions c cols)" by simp
  then have "j < length cols" "cols ! j = c" by (simp_all add: positions_set)
  with j True show ?thesis by (simp add: lookup_cell_def cell_at_def)
next
  case False
  then show ?thesis by (simp add: lookup_cell_absent)
qed

lemma getitem_Series_D:
  "getitem df key = Inr (Series col) \<Longrightarrow>
   \<exists>j. positions key (columns df) = [j] \<and> col = map (cell_at j) (rows df)"
  by (auto simp: getitem_def split: list.splits)

lemma setitem_single:
  assumes "positions key (columns df) = [j]"
  shows "setitem df key (map f (map (cell_at j) (rows df))) =
         df\<lparr>rows := map (\<lambda>r. r[j := f (cell_at j r)]) (rows df)\<rparr>"
proof -
  have "zip (rows df) (map f (map (cell_at j) (rows df))) =
        map (\<lambda>r. (r, f (cell_at j r))) (rows df)"
    by (induction "rows df") (simp_all add: zip_map2 zip_same_conv_map)
  then show ?thesis
    using assms by (simp add: setitem_def comp_def)
qed

lemma dropna_single:
  "positions key (columns df) = [j] \<Longrightarrow>
   dropna key df = Inr (df\<lparr>rows := filter (\<lambda>r. cell_at j r \<noteq> Null) (rows df)\<rparr>)"
  by (simp add: dropna_def)

lemma sort_values_single:
  assumes pos: "positions key (columns df) = [j]"
    and nn: "\<forall>r \<in> set (rows df). cell_at j r \<noteq> Null"
  shows "sort_values argsort key df =
         (let order = argsort (map (\<lambda>r. sort_key_of (cell_at j r)) (rows df))
          in if \<forall>k \<in> set order. k < length (rows df)
             then Inr (df\<lparr>rows := map (\<lambda>i. rows df ! i) order\<rparr>)
             else Inl IndexError)"
proof -
  let ?col = "map (cell_at j) (rows df)"
  let ?n = "length (rows df)"
  have all: "filter (\<lambda>i. ?col ! i \<noteq> Null) [0..<?n] = [0..<?n]"
    using nn by (auto intro!: filter_True)
  have none: "filter (\<lambda>i. ?col ! i = Null) [0..<?n] = []"
    using nn by (auto intro!: filter_False)
  have keys: "map (\<lambda>i. sort_key_of (?col ! i)) [0..<?n] =
              map (\<lambda>r. sort_key_of (cell_at j r)) (rows df)"
    by (rule nth_equalityI) simp_all
  have idx: "(\<forall>k \<in> set order. k < ?n) \<Longrightarrow> map (\<lambda>k. [0..<?n] ! k) order = order" for order
    by (induction order) simp_all
  show ?thesis
    using pos by (simp add: sort_values_def Let_def all none keys idx cong: if_cong)
qed

lemma zip_upt_fst: "p \<in> set (zip ks [0..<length ks]) \<Longrightarrow> ks ! snd p = fst p"
  by (auto simp: in_set_zip)

lemma sorts_stable_argsort: "sorts stable_argsort"
  unfolding sorts_def
proof (intro allI conjI)
  fix ks :: "int list"
  let ?zs = "zip ks [0..<length ks]"
  have "mset (stable_argsort ks) = image_mset snd (mset ?zs)"
    unfolding stable_argsort_def by simp
  also have "\<dots> = mset (map snd ?zs)"
    by (simp only: mset_map)
  also have "map snd ?zs = [0..<length ks]"
    by (rule map_snd_zip) simp
  finally show "mset (stable_argsort ks) = mset [0..<length ks]" .
  have eq: "map (\<lambda>i. ks ! i) (map snd (sort_key fst ?zs)) = map fst (sort_key fst ?zs)"
    by (simp add: zip_upt_fst)
  show "sorted (map (\<lambda>i. ks ! i) (stable_argsort ks))"
    unfolding stable_argsort_def eq by (rule sorted_sort_key)
qed

lemma columns_standardize_length: "length (columns (standardize df)) = length (columns df)"
  by (simp add: standardize_def rename_def)

lemma rows_standardize: "rows (standardize df) = rows df"
  by (simp add: standardize_def rename_def)

lemma row_length_merged:
  "r \<in> set (rows (merged s)) \<Longrightarrow> length r = length (columns (merged s))"
  by (simp add: merged_def rows_standardize columns_standardize_length row_length_pd_concat)

lemma columns_coerce_at: "columns (coerce_at parse j df) = columns df"
  by (simp add: coerce_at_def)

lemma columns_drop_at: "columns (drop_at j df) = columns df"
  by (simp add: drop_at_def)

lemma columns_reorder: "columns (reorder order df) = columns df"
  by (simp add: reorder_def)

lemma drop_at_no_null: "r \<in> set (rows (drop_at j df)) \<Longrightarrow> cell_at j r \<noteq> Null"
  by (simp add: drop_at_def)

lemma lookup_cell_single: "positions c cols = [j] \<Longrightarrow> lookup_cell cols r c = cell_at j r"
  by (simp add: lookup_cell_def)

lemma cell_at_update: "j < length r \<Longrightarrow> cell_at j (r[j := v]) = v"
  by (simp add: cell_at_def)

lemma cell_at_update_other: "i \<noteq> j \<Longrightarrow> cell_at i (r[j := v]) = cell_at i r"
  by (simp add: cell_at_def)

lemma lookup_cell_update_other:
  assumes "positions key cols = [j]" "c \<noteq> key"
  shows "lookup_cell cols (r[j := v]) c = lookup_cell cols r c"
proof (cases "positions c cols")
  case Nil
  then show ?thesis by (simp add: lookup_cell_def)
next
  case (Cons i js)
  then have "i \<in> set (positions c cols)" by simp
  then have i: "cols ! i = c" by (simp add: positions_set)
  from assms(1) have "j \<in> set (positions key cols)" by simp
  then have "cols ! j = key" by (simp add: positions_set)
  with i assms(2) have "i \<noteq> j" by auto
  with Cons show ?thesis by (simp add: lookup_cell_def cell_at_update_other)
qed

lemma to_datetime_cell_Null_iff: "to_datetime_cell parse c = Null \<longleftrightarrow> coerce parse c = None"
  by (simp add: to_datetime_cell_def split: option.splits)

lemma to_datetime_cell_Some: "coerce parse c = Some st \<Longrightarrow> to_datetime_cell parse c = Time (to_utc st)"
  by (simp add: to_datetime_cell_def)

lemma to_utc_instant: "to_utc st = Aware (instant st) 0"
  by (cases st) simp_all

lemma to_datetime_cell_utc:
  "to_datetime_cell parse c \<noteq> Null \<Longrightarrow> \<exists>t. to_datetime_cell parse c = Time (Aware t 0)"
  by (auto simp: to_datetime_cell_def to_utc_instant split: option.splits)

lemma mset_map_nth_perm:
  assumes "mset order = mset [0..<length xs]"
  shows "mset (map (\<lambda>i. xs ! i) order) = mset xs"
proof -
  have "mset (map (\<lambda>i. xs ! i) order) = image_mset (\<lambda>i. xs ! i) (mset order)"
    by (simp only: mset_map)
  also have "\<dots> = image_mset (\<lambda>i. xs ! i) (mset [0..<length xs])"
    by (simp only: assms)
  also have "\<dots> = mset (map (\<lambda>i. xs ! i) [0..<length xs])"
    by (simp only: mset_map)
  also have "map (\<lambda>i. xs ! i) [0..<length xs] = xs"
    by (rule map_nth)
  finally show ?thesis .
qed

lemma perm_in_range:
  assumes "mset order = mset [0..<n]"
  shows "\<forall>k \<in> set order. k < n"
proof -
  have "set order = set [0..<n]"
    using assms by (rule mset_eq_setD)
  then show ?thesis by simp
qed

lemma rows_reorder_subset:
  assumes "\<forall>k \<in> set order. k < len df"
  shows "set (rows (reorder order df)) \<subseteq> set (rows df)"
  using assms by (auto simp: reorder_def len_def)

lemma row_of_drop_coerce:
  assumes "r \<in> set (rows (drop_at j (coerce_at parse j m)))"
    and "\<forall>r0 \<in> set (rows m). j < length r0"
  shows "\<exists>t. cell_at j r = Time (Aware t 0)"
proof -
  from assms(1) obtain r0 where r0: "r0 \<in> set (rows m)"
    and r: "r = r0[j := to_datetime_cell parse (cell_at j r0)]" and nn: "cell_at j r \<noteq> Null"
    by (auto simp: drop_at_def coerce_at_def)
  from assms(2) r0 have "j < length r0"
    by simp
  then have "cell_at j r = to_datetime_cell parse (cell_at j r0)"
    unfolding r by (rule cell_at_update)
  with nn to_datetime_cell_utc [of parse "cell_at j r0"] show ?thesis
    by simp
qed

lemma merged_rows_reach:
  assumes "j < length (columns (merged s))"
  shows "\<forall>r0 \<in> set (rows (merged s)). j < length r0"
  using assms row_length_merged by simp

lemma sorts_D:
  assumes "sorts argsort"
  shows "mset (argsort ks) = mset [0..<length ks]"
    and "sorted (map (\<lambda>i. ks ! i) (argsort ks))"
  using assms unfolding sorts_def by blast+

lemma mset_rows_reorder:
  assumes "mset order = mset [0..<len df]"
  shows "mset (rows (reorder order df)) = mset (rows df)"
  using mset_map_nth_perm [of order "rows df"] assms by (simp add: reorder_def len_def)

lemma length_keys_at: "length (keys_at j df) = len df"
  by (simp add: keys_at_def len_def)

lemma datetime_of_single:
  "positions ''datetime'' (columns df) = [j] \<Longrightarrow> datetime_of df r = cell_at j r"
  by (simp add: datetime_of_def lookup_cell_single)

lemma len_reorder: "len (reorder order df) = length order"
  by (simp add: reorder_def len_def)

lemma length_perm:
  assumes "mset order = mset [0..<n]"
  shows "length order = n"
proof -
  have "length order = size (mset order)" by simp
  also have "\<dots> = size (mset [0..<n])" by (simp only: assms)
  finally show ?thesis by simp
qed

lemma rows_drop_coerce:
  assumes "\<forall>r0 \<in> set (rows m). j < length r0"
  shows "rows (drop_at j (coerce_at parse j m)) =
         map (\<lambda>r0. r0[j := to_datetime_cell parse (cell_at j r0)])
           (filter (\<lambda>r0. coerce parse (cell_at j r0) \<noteq> None) (rows m))"
proof -
  have "filter (\<lambda>r. cell_at j r \<noteq> Null)
          (map (\<lambda>r0. r0[j := to_datetime_cell parse (cell_at j r0)]) (rows m)) =
        map (\<lambda>r0. r0[j := to_datetime_cell parse (cell_at j r0)])
          (filter (\<lambda>r0. coerce parse (cell_at j r0) \<noteq> None) (rows m))"
    unfolding filter_map comp_def
    using assms
    by (intro arg_cong [where f = "map _"] filter_cong refl)
       (simp add: cell_at_update to_datetime_cell_Null_iff)
  then show ?thesis
    by (simp add: drop_at_def coerce_at_def)
qed

lemma load_file_combined_df: "combined_df (load_file f s) = combined_df s"
  by (simp add: load_file_def log_def split: sum.splits)

lemma load_loop_combined_df: "combined_df (load_loop fs s) = combined_df s"
  by (induction fs arbitrary: s) (simp_all add: load_file_combined_df)

lemma load_files_combined_df: "combined_df (load_files listing s) = combined_df s"
  by (simp add: load_files_def load_loop_combined_df log_def)

lemma load_file_dataframes: "\<exists>ds. dataframes (load_file f s) = dataframes s @ ds"
  by (simp add: load_file_def log_def split: sum.splits)

lemma load_loop_dataframes: "\<exists>ds. dataframes (load_loop fs s) = dataframes s @ ds"
proof (induction fs arbitrary: s)
  case Nil
  then show ?case by simp
next
  case (Cons f fs)
  from load_file_dataframes [of f s] obtain d1 where
    d1: "dataframes (load_file f s) = dataframes s @ d1" ..
  from Cons.IH [of "load_file f s"] obtain d2 where
    "dataframes (load_loop fs (load_file f s)) = dataframes (load_file f s) @ d2" ..
  with d1 show ?case by simp
qed

lemma load_files_keeps_dataframes:
  "dataframes (load_files listing s) = [] \<Longrightarrow> dataframes s = []"
  using load_loop_dataframes [of listing "log (Scanning (directory s)) s"]
  by (auto simp: load_files_def log_def)

lemma preprocess_data_nothing_loaded:
  "dataframes s = [] \<Longrightarrow> preprocess_data parse argsort s = Inr (log NoDataframes s)"
  by (simp add: preprocess_data_def)

lemma create_database_nothing:
  assumes "combined_df s = None \<or> (\<exists>df. combined_df s = Some df \<and> df_empty df)"
  shows "create_database io db_path table_name s st = (log NoData s, st)"
  using assms by (auto simp: create_database_def)

lemma combined_df_log: "combined_df (log ev s) = combined_df s"
  by (simp add: log_def)

lemma no_timestamp_column:
  assumes "\<forall>df \<in> set dfs. ''datetime'' \<notin> set (columns df) \<and> ''DATETIME'' \<notin> set (columns df)"
  shows "positions ''datetime'' (columns (standardize (pd_concat dfs))) = []"
proof -
  from assms have "''datetime'' \<notin> set (columns (pd_concat dfs))"
    and "''DATETIME'' \<notin> set (columns (pd_concat dfs))"
    by (auto simp: pd_concat_def set_union_columns)
  then have "''datetime'' \<notin> set (columns (standardize (pd_concat dfs)))"
    by (simp add: standardize_def)
  then show ?thesis
    by (rule positions_absent)
qed

lemma to_datetime_Inr_D:
  "to_datetime parse sel = Inr col' \<Longrightarrow>
   \<exists>col. sel = Series col \<and>
     col' = map (to_datetime_cell (parse (find (\<lambda>c. c \<noteq> Null) col))) col"
  by (auto simp: to_datetime_def split: selection.splits)

lemma getitem_single:
  "positions key (columns df) = [j] \<Longrightarrow>
   getitem df key = Inr (Series (map (cell_at j) (rows df)))"
  by (simp add: getitem_def)

lemma assign_datetime_single:
  assumes "positions ''datetime'' (columns m) = [j]"
  shows "assign_datetime parse m = Inr (coerce_at (column_parser parse j m) j m)"
  using assms setitem_single [OF assms, of "to_datetime_cell (column_parser parse j m)"]
  by (simp add: assign_datetime_def getitem_single to_datetime_def coerce_at_def
      column_parser_def)

lemma assign_datetime_Inr_D:
  assumes "assign_datetime parse m = Inr df1"
  shows "\<exists>j. positions ''datetime'' (columns m) = [j] \<and>
             df1 = coerce_at (column_parser parse j m) j m"
proof -
  from assms obtain sel where sel: "getitem m ''datetime'' = Inr sel"
    and conv: "\<exists>col'. to_datetime parse sel = Inr col'"
    by (auto simp: assign_datetime_def split: sum.splits)
  from conv to_datetime_Inr_D obtain col where "sel = Series col"
    by blast
  with sel getitem_Series_D obtain j where j: "positions ''datetime'' (columns m) = [j]"
    by blast
  from assms assign_datetime_single [OF j, of parse]
  have "df1 = coerce_at (column_parser parse j m) j m"
    by simp
  with j show ?thesis by blast
qed

lemma columns_presort: "columns (presort parse j df) = columns df"
  by (simp add: presort_def columns_drop_at columns_coerce_at)

lemma presort_no_null: "\<forall>r \<in> set (rows (presort parse j df)). cell_at j r \<noteq> Null"
  by (simp add: presort_def drop_at_no_null)

lemma preprocess_data_single:
  assumes ne: "dataframes s \<noteq> []"
    and pos: "positions ''datetime'' (columns (merged s)) = [j]"
  shows "preprocess_data parse argsort s =
         (if \<forall>k \<in> set (argsort (keys_at j (presort parse j (merged s)))).
               k < len (presort parse j (merged s))
          then Inr (log (PreprocessingComplete
                           (length (argsort (keys_at j (presort parse j (merged s))))))
                 ((log Preprocessing s)\<lparr>combined_df :=
                    Some (reorder (argsort (keys_at j (presort parse j (merged s))))
                            (presort parse j (merged s)))\<rparr>))
          else Inl (IndexError,
                 (log Preprocessing s)\<lparr>combined_df := Some (presort parse j (merged s))\<rparr>))"
proof -
  let ?m = "merged s"
  let ?c = "coerce_at (column_parser parse j ?m) j ?m"
  let ?pre = "presort parse j ?m"
  have a: "assign_datetime parse ?m = Inr ?c"
    by (rule assign_datetime_single [OF pos])
  have pos1: "positions ''datetime'' (columns ?c) = [j]"
    using pos by (simp add: columns_coerce_at)
  have d: "dropna ''datetime'' ?c = Inr ?pre"
    by (simp add: dropna_single [OF pos1] drop_at_def presort_def)
  have pos2: "positions ''datetime'' (columns ?pre) = [j]"
    using pos by (simp add: columns_presort)
  note sv = sort_values_single [OF pos2 presort_no_null, of argsort]
  have m: "standardize (pd_concat (map snd (dataframes s))) = ?m"
    by (simp add: merged_def)
  show ?thesis
    using ne a d
    by (simp add: preprocess_data_def Let_def m log_def sv keys_at_def reorder_def len_def)
qed

lemma preprocess_data_Inr:
  assumes ok: "preprocess_data parse argsort s = Inr s'" and ne: "dataframes s \<noteq> []"
  shows "\<exists>j. positions ''datetime'' (columns (merged s)) = [j] \<and>
           j < length (columns (merged s)) \<and>
           (\<forall>k \<in> set (argsort (keys_at j (presort parse j (merged s)))).
              k < len (presort parse j (merged s))) \<and>
           combined_df s' =
             Some (reorder (argsort (keys_at j (presort parse j (merged s))))
                     (presort parse j (merged s)))"
proof -
  from ok ne obtain df1 where "assign_datetime parse (merged s) = Inr df1"
    by (auto simp: preprocess_data_def Let_def merged_def log_def split: sum.splits)
  from assign_datetime_Inr_D [OF this] obtain j where
    j: "positions ''datetime'' (columns (merged s)) = [j]"
    by blast
  then have "j \<in> set (positions ''datetime'' (columns (merged s)))"
    by simp
  then have jlt: "j < length (columns (merged s))"
    by (simp add: positions_set)
  from ok have "(\<forall>k \<in> set (argsort (keys_at j (presort parse j (merged s)))).
              k < len (presort parse j (merged s))) \<and>
           combined_df s' =
             Some (reorder (argsort (keys_at j (presort parse j (merged s))))
                     (presort parse j (merged s)))"
    unfolding preprocess_data_single [OF ne j]
    by (auto simp: log_def split: if_splits)
  with j jlt show ?thesis by blast
qed

lemma positions_mem: "positions key cols = [j] \<Longrightarrow> key \<in> set cols"
  using positions_Nil_iff [of key cols] by auto

lemma preprocess_data_has_column:
  assumes "preprocess_data parse argsort s = Inr s'" and "dataframes s \<noteq> []"
  shows "\<exists>out. combined_df s' = Some out \<and> ''datetime'' \<in> set (columns out)"
proof -
  from preprocess_data_Inr [OF assms] obtain j where
    j: "positions ''datetime'' (columns (merged s)) = [j]"
    and out: "combined_df s' =
             Some (reorder (argsort (keys_at j (presort parse j (merged s))))
                     (presort parse j (merged s)))"
    by blast
  from positions_mem [OF j] have "''datetime'' \<in> set (columns (merged s))" .
  with out show ?thesis
    by (simp add: columns_reorder columns_presort)
qed

lemma keys_reorder:
  assumes "\<forall>k \<in> set order. k < len df"
  shows "keys_at j (reorder order df) = map (\<lambda>i. keys_at j df ! i) order"
  using assms by (simp add: keys_at_def reorder_def len_def)

lemma coerce_Some_iff:
  "coerce p c = Some st \<longleftrightarrow>
   (case c of Null \<Rightarrow> False | Time st' \<Rightarrow> st' = st | c' \<Rightarrow> p c' = Some st)"
  by (cases c) (auto simp: coerce_def)

lemma coerce_not_None_iff:
  "coerce p c \<noteq> None \<longleftrightarrow>
   (case c of Null \<Rightarrow> False | Time st' \<Rightarrow> True | c' \<Rightarrow> p c' \<noteq> None)"
  by (cases c) (auto simp: coerce_def)

lemma to_utc_cases:
  "Time (to_utc st) =
   (case st of Naive t \<Rightarrow> Time (Aware t 0) | Aware t off \<Rightarrow> Time (Aware (t - off) 0))"
  by (cases st) simp_all

lemma timestamps_single:
  "positions ''datetime'' (columns df) = [j] \<Longrightarrow> timestamps df = map (cell_at j) (rows df)"
  by (simp add: timestamps_def datetime_of_single)

lemma single_timestamp_column:
  assumes "(''datetime'' \<in> (\<Union>df \<in> set dfs. set (columns df))) \<noteq>
           (''DATETIME'' \<in> (\<Union>df \<in> set dfs. set (columns df)))"
  shows "\<exists>j. positions ''datetime'' (columns (standardize (pd_concat dfs))) = [j]"
proof -
  let ?U = "union_columns dfs"
  let ?f = "\<lambda>c. if c = ''DATETIME'' then ''datetime'' else c"
  have U: "columns (pd_concat dfs) = ?U"
    by (simp add: pd_concat_def)
  show ?thesis
  proof (cases "''DATETIME'' \<in> set ?U")
    case True
    with assms have no: "''datetime'' \<notin> set ?U"
      by (simp add: set_union_columns)
    then have "inj_on ?f (set ?U)"
      by (auto simp: inj_on_def)
    with distinct_union_columns have "distinct (map ?f ?U)"
      by (simp add: distinct_map)
    moreover have "''datetime'' \<in> set (map ?f ?U)"
      using True by force
    moreover have "columns (standardize (pd_concat dfs)) = map ?f ?U"
      using True by (simp add: standardize_def rename_def U)
    ultimately show ?thesis
      using positions_distinct_cols by simp
  next
    case False
    with assms have "''datetime'' \<in> set ?U"
      by (simp add: set_union_columns)
    moreover have "columns (standardize (pd_concat dfs)) = ?U"
      using False by (simp add: standardize_def U)
    ultimately show ?thesis
      using positions_distinct_cols distinct_union_columns by simp
  qed
qed

lemma rows_presort:
  assumes "\<forall>r0 \<in> set (rows m). j < length r0"
  shows "rows (presort parse j m) =
         map (\<lambda>r0. r0[j := to_datetime_cell (column_parser parse j m) (cell_at j r0)])
           (filter (\<lambda>r0. coerce (column_parser parse j m) (cell_at j r0) \<noteq> None) (rows m))"
  unfolding presort_def by (rule rows_drop_coerce [OF assms])

lemma presort_utc:
  assumes "r \<in> set (rows (presort parse j m))" and "\<forall>r0 \<in> set (rows m). j < length r0"
  shows "\<exists>t. cell_at j r = Time (Aware t 0)"
  using assms unfolding presort_def by (rule row_of_drop_coerce)

lemma events_preprocessed:
  "preprocess_data sample_parse stable_argsort events_loaded = Inr events_done"
  by code_simp

lemma b_preprocessed:
  "preprocess_data sample_parse stable_argsort
     (load_files [csv_entry ''b.csv'' b_csv] (DataETL ''data'')) = Inr b_done"
  by code_simp

lemma junk_preprocessed:
  "preprocess_data sample_parse stable_argsort
     (load_files [csv_entry ''junk.csv'' junk_csv] (DataETL ''data'')) = Inr junk_done"
  by code_simp

section \<open>The properties\<close>

subsection \<open>The merge\<close>

text \<open>
  C6. For every list of loaded tables, the merged table of \<^verbatim>\<open>pd.concat\<close> has as many rows as
  the tables have together, its columns are exactly the columns that occur in some table,
  and its rows are the rows of the tables in the order of the list, each table's rows in
  their own order: row \<open>i\<close> of table \<open>k\<close> stands at the position that counts the rows of
  the tables before it, holds under every column of its table the value it had there, and
  holds the missing value under every other column.
\<close>

theorem merge_complete:
  "len (pd_concat dfs) = sum_list (map len dfs) \<and>
   set (columns (pd_concat dfs)) = (\<Union>df \<in> set dfs. set (columns df)) \<and>
   (\<forall>k i c. k < length dfs \<longrightarrow> i < len (dfs ! k) \<longrightarrow>
      lookup_cell (columns (pd_concat dfs))
        (rows (pd_concat dfs) ! (sum_list (map len (take k dfs)) + i)) c =
      (if c \<in> set (columns (dfs ! k))
       then lookup_cell (columns (dfs ! k)) (rows (dfs ! k) ! i) c else Null))"
proof (intro conjI allI impI)
  show "len (pd_concat dfs) = sum_list (map len dfs)"
    by (rule len_pd_concat)
  show "set (columns (pd_concat dfs)) = (\<Union>df \<in> set dfs. set (columns df))"
    by (simp add: pd_concat_def set_union_columns)
next
  fix k i c
  assume k: "k < length dfs" and i: "i < len (dfs ! k)"
  let ?cols = "union_columns dfs"
  let ?blocks = "map (reindex ?cols) dfs"
  have len_eq: "map len (take k dfs) = map length (take k ?blocks)"
    by (simp add: take_map length_reindex comp_def len_def [abs_def] reindex_def)
  have "rows (pd_concat dfs) ! (sum_list (map len (take k dfs)) + i) = ?blocks ! k ! i"
    unfolding pd_concat_def len_eq using k i
    by (simp add: nth_concat_block length_reindex)
  also have "\<dots> = map (lookup_cell (columns (dfs ! k)) (rows (dfs ! k) ! i)) ?cols"
    using k i by (simp add: reindex_def len_def)
  finally have row: "rows (pd_concat dfs) ! (sum_list (map len (take k dfs)) + i) =
      map (lookup_cell (columns (dfs ! k)) (rows (dfs ! k) ! i)) ?cols" .
  have "dfs ! k \<in> set dfs"
    using k by simp
  then have sub: "set (columns (dfs ! k)) \<subseteq> set ?cols"
    unfolding set_union_columns by blast
  show "lookup_cell (columns (pd_concat dfs))
        (rows (pd_concat dfs) ! (sum_list (map len (take k dfs)) + i)) c =
      (if c \<in> set (columns (dfs ! k))
       then lookup_cell (columns (dfs ! k)) (rows (dfs ! k) ! i) c else Null)"
    unfolding row using sub
    by (auto simp: pd_concat_def lookup_cell_map [OF distinct_union_columns] lookup_cell_absent)
qed

text \<open>
  The merge of the two scenario files: table 1 has one row, which becomes row 1 of the
  merged table, with nothing under \<^verbatim>\<open>DATETIME\<close> and its own value under \<^verbatim>\<open>val\<close>.
\<close>

theorem merge_complete_witness:
  "(1::nat) < length [a_csv, b_csv] \<and> (0::nat) < len ([a_csv, b_csv] ! 1) \<and>
   len (pd_concat [a_csv, b_csv]) = 2 \<and>
   columns (pd_concat [a_csv, b_csv]) = [''DATETIME'', ''val'', ''datetime''] \<and>
   lookup_cell (columns (pd_concat [a_csv, b_csv])) (rows (pd_concat [a_csv, b_csv]) ! 1)
     ''DATETIME'' = Null \<and>
   lookup_cell (columns (pd_concat [a_csv, b_csv])) (rows (pd_concat [a_csv, b_csv]) ! 1)
     ''val'' = Num 2"
proof -
  have k: "(1::nat) < length [a_csv, b_csv]" by simp
  have i: "(0::nat) < len ([a_csv, b_csv] ! 1)" by code_simp
  note m = merge_complete [of "[a_csv, b_csv]"]
  from m have n: "len (pd_concat [a_csv, b_csv]) = sum_list (map len [a_csv, b_csv])"
    by (rule conjunct1)
  have n': "sum_list (map len [a_csv, b_csv]) = 2" by code_simp
  have cols: "columns (pd_concat [a_csv, b_csv]) = [''DATETIME'', ''val'', ''datetime'']"
    by code_simp
  from m have cellwise: "lookup_cell (columns (pd_concat [a_csv, b_csv]))
        (rows (pd_concat [a_csv, b_csv]) ! (sum_list (map len (take 1 [a_csv, b_csv])) + 0)) c =
      (if c \<in> set (columns ([a_csv, b_csv] ! 1))
       then lookup_cell (columns ([a_csv, b_csv] ! 1)) (rows ([a_csv, b_csv] ! 1) ! 0) c
       else Null)" for c
    using k i by blast
  have off: "sum_list (map len (take 1 [a_csv, b_csv])) + 0 = 1" by code_simp
  have c1: "(if ''DATETIME'' \<in> set (columns ([a_csv, b_csv] ! 1))
       then lookup_cell (columns ([a_csv, b_csv] ! 1)) (rows ([a_csv, b_csv] ! 1) ! 0) ''DATETIME''
       else Null) = Null" by code_simp
  have c2: "(if ''val'' \<in> set (columns ([a_csv, b_csv] ! 1))
       then lookup_cell (columns ([a_csv, b_csv] ! 1)) (rows ([a_csv, b_csv] ! 1) ! 0) ''val''
       else Null) = Num 2" by code_simp
  from cellwise [of "''DATETIME''"] cellwise [of "''val''"] show ?thesis
    unfolding off c1 c2 using k i n n' cols by simp
qed

subsection \<open>The timestamps after preprocess_data\<close>

text \<open>
  C5, as the program has it. For every non-empty list of loaded tables in which exactly one
  of the labels \<^verbatim>\<open>datetime\<close> and \<^verbatim>\<open>DATETIME\<close> occurs, and every sorting routine that sorts,
  \<open>preprocess_data\<close> returns, and in the combined table
  \<^item> every row has a timestamp that is aware with offset 0 (normalized to UTC);
  \<^item> every row stems from a merged row whose timestamp was not missing and was either a
    date-time value already or read as one by the parser in the format of its column; the
    row has that value converted to UTC and is otherwise unchanged;
  \<^item> the rows are as many as the merged rows with such a timestamp.
  So no row with a missing timestamp, and no row whose timestamp the parser did not read,
  is left.
\<close>

theorem surviving_timestamps_utc:
  assumes "dataframes s \<noteq> []"
    and "(''datetime'' \<in> (\<Union>df \<in> set (map snd (dataframes s)). set (columns df))) \<noteq>
         (''DATETIME'' \<in> (\<Union>df \<in> set (map snd (dataframes s)). set (columns df)))"
    and "sorts argsort"
  shows "\<exists>s' out. preprocess_data parse argsort s = Inr s' \<and> combined_df s' = Some out \<and>
     (\<forall>r \<in> set (rows out). \<exists>t. datetime_of out r = Time (Aware t 0)) \<and>
     (\<forall>r \<in> set (rows out). \<exists>r0 \<in> set (rows (merged s)). \<exists>st.
        datetime_of (merged s) r0 \<noteq> Null \<and>
        (case datetime_of (merged s) r0 of
           Null \<Rightarrow> False
         | Time st' \<Rightarrow> st' = st
         | c \<Rightarrow> parse (find (\<lambda>c. c \<noteq> Null) (timestamps (merged s))) c = Some st) \<and>
        datetime_of out r =
          (case st of Naive t \<Rightarrow> Time (Aware t 0)
                    | Aware t off \<Rightarrow> Time (Aware (t - off) 0)) \<and>
        (\<forall>c. c \<noteq> ''datetime'' \<longrightarrow>
           lookup_cell (columns out) r c = lookup_cell (columns (merged s)) r0 c)) \<and>
     len out =
       length (filter
         (\<lambda>r0. case datetime_of (merged s) r0 of
                  Null \<Rightarrow> False
                | Time st' \<Rightarrow> True
                | c \<Rightarrow> parse (find (\<lambda>c. c \<noteq> Null) (timestamps (merged s))) c \<noteq> None)
         (rows (merged s)))"
proof -
  let ?m = "merged s"
  from single_timestamp_column [OF assms(2)] obtain j where
    j: "positions ''datetime'' (columns ?m) = [j]"
    unfolding merged_def by blast
  then have "j \<in> set (positions ''datetime'' (columns ?m))"
    by simp
  then have jlt: "j < length (columns ?m)"
    by (simp add: positions_set)
  note reach = merged_rows_reach [OF jlt]
  let ?p = "column_parser parse j ?m"
  let ?pre = "presort parse j ?m"
  let ?order = "argsort (keys_at j ?pre)"
  let ?out = "reorder ?order ?pre"
  have p: "parse (find (\<lambda>c. c \<noteq> Null) (timestamps ?m)) = ?p"
    by (simp add: column_parser_def timestamps_single [OF j])
  have dt: "datetime_of ?m r0 = cell_at j r0" for r0
    by (rule datetime_of_single [OF j])
  have perm: "mset ?order = mset [0..<len ?pre]"
    using sorts_D(1) [OF assms(3), of "keys_at j ?pre"] by (simp only: length_keys_at)
  have bound: "\<forall>k \<in> set ?order. k < len ?pre"
    by (rule perm_in_range [OF perm])
  have cols: "columns ?out = columns ?m"
    by (simp add: columns_reorder columns_presort)
  have pos: "positions ''datetime'' (columns ?out) = [j]"
    using j cols by simp
  have rows_eq: "set (rows ?out) = set (rows ?pre)"
    using mset_rows_reorder [OF perm] by (rule mset_eq_setD)
  have ret: "preprocess_data parse argsort s =
      Inr (log (PreprocessingComplete (length ?order))
             ((log Preprocessing s)\<lparr>combined_df := Some ?out\<rparr>))"
    using bound by (simp add: preprocess_data_single [OF assms(1) j])
  have comb: "combined_df (log (PreprocessingComplete (length ?order))
             ((log Preprocessing s)\<lparr>combined_df := Some ?out\<rparr>)) = Some ?out"
    by (simp add: log_def)
  have utc: "\<exists>t. datetime_of ?out r = Time (Aware t 0)" if "r \<in> set (rows ?out)" for r
  proof -
    from that rows_eq have "r \<in> set (rows ?pre)"
      by simp
    from presort_utc [OF this reach] show ?thesis
      by (simp add: datetime_of_single [OF pos])
  qed
  have origin: "\<exists>r0 \<in> set (rows ?m). \<exists>st.
        datetime_of ?m r0 \<noteq> Null \<and>
        (case datetime_of ?m r0 of
           Null \<Rightarrow> False
         | Time st' \<Rightarrow> st' = st
         | c \<Rightarrow> parse (find (\<lambda>c. c \<noteq> Null) (timestamps ?m)) c = Some st) \<and>
        datetime_of ?out r =
          (case st of Naive t \<Rightarrow> Time (Aware t 0)
                    | Aware t off \<Rightarrow> Time (Aware (t - off) 0)) \<and>
        (\<forall>c. c \<noteq> ''datetime'' \<longrightarrow>
           lookup_cell (columns ?out) r c = lookup_cell (columns ?m) r0 c)"
    if "r \<in> set (rows ?out)" for r
  proof -
    from that rows_eq have "r \<in> set (rows ?pre)"
      by simp
    then obtain r0 where r0: "r0 \<in> set (rows ?m)"
      and good: "coerce ?p (cell_at j r0) \<noteq> None"
      and r: "r = r0[j := to_datetime_cell ?p (cell_at j r0)]"
      unfolding rows_presort [OF reach] by auto
    from good obtain st where st: "coerce ?p (cell_at j r0) = Some st"
      by blast
    from reach r0 have len_r0: "j < length r0"
      by simp
    have nn: "datetime_of ?m r0 \<noteq> Null"
      using st by (auto simp: dt coerce_def)
    have read: "(case datetime_of ?m r0 of
           Null \<Rightarrow> False
         | Time st' \<Rightarrow> st' = st
         | c \<Rightarrow> parse (find (\<lambda>c. c \<noteq> Null) (timestamps ?m)) c = Some st)"
      using st unfolding p dt coerce_Some_iff .
    have "datetime_of ?out r = cell_at j r"
      by (rule datetime_of_single [OF pos])
    also have "\<dots> = Time (to_utc st)"
      unfolding r using len_r0 st by (simp add: cell_at_update to_datetime_cell_Some)
    finally have conv: "datetime_of ?out r =
          (case st of Naive t \<Rightarrow> Time (Aware t 0)
                    | Aware t off \<Rightarrow> Time (Aware (t - off) 0))"
      by (simp only: to_utc_cases)
    have rest: "\<forall>c. c \<noteq> ''datetime'' \<longrightarrow>
           lookup_cell (columns ?out) r c = lookup_cell (columns ?m) r0 c"
      unfolding cols r using lookup_cell_update_other [OF j] by blast
    from r0 nn read conv rest show ?thesis
      by blast
  qed
  have "len ?out = len ?pre"
    by (simp add: len_reorder length_perm [OF perm])
  also have "\<dots> = length (filter (\<lambda>r0. coerce ?p (cell_at j r0) \<noteq> None) (rows ?m))"
    by (simp add: len_def rows_presort [OF reach])
  finally have count: "len ?out =
       length (filter
         (\<lambda>r0. case datetime_of ?m r0 of
                  Null \<Rightarrow> False
                | Time st' \<Rightarrow> True
                | c \<Rightarrow> parse (find (\<lambda>c. c \<noteq> Null) (timestamps ?m)) c \<noteq> None)
         (rows ?m))"
    unfolding p dt coerce_not_None_iff .
  from ret comb utc origin count show ?thesis
    by blast
qed

text \<open>
  The events file: of its five timestamps the two written with an offset are read in the
  format that the first of them fixes; the two rows are left, both at 10:00 UTC.
\<close>

theorem surviving_timestamps_utc_witness:
  "dataframes events_loaded = [(''events.csv'', events_csv)] \<and>
   ''datetime'' \<in> set (columns events_csv) \<and> ''DATETIME'' \<notin> set (columns events_csv) \<and>
   sorts stable_argsort \<and>
   preprocess_data sample_parse stable_argsort events_loaded = Inr events_done \<and>
   combined_df events_done = Some events_out \<and>
   timestamps (merged events_loaded) =
     [Str ''2024-01-01T10:00:00Z'', Str ''not-a-date'', Str ''2024-01-01T12:00:00+02:00'',
      Str ''2024-01-01T09:00:00'', Null] \<and>
   timestamps events_out =
     [Time (Aware 1704103200000000000 0), Time (Aware 1704103200000000000 0)]"
proof -
  have h0: "dataframes events_loaded = [(''events.csv'', events_csv)]" by code_simp
  have h1: "''datetime'' \<in> set (columns events_csv)" by code_simp
  have h2: "''DATETIME'' \<notin> set (columns events_csv)" by code_simp
  from h0 have ne: "dataframes events_loaded \<noteq> []"
    by simp
  from h0 h1 h2 have one: "(''datetime'' \<in> (\<Union>df \<in> set (map snd (dataframes events_loaded)).
        set (columns df))) \<noteq>
      (''DATETIME'' \<in> (\<Union>df \<in> set (map snd (dataframes events_loaded)). set (columns df)))"
    by simp
  have c1: "combined_df events_done = Some events_out" by code_simp
  have c2: "timestamps (merged events_loaded) =
     [Str ''2024-01-01T10:00:00Z'', Str ''not-a-date'', Str ''2024-01-01T12:00:00+02:00'',
      Str ''2024-01-01T09:00:00'', Null]" by code_simp
  have c3: "timestamps events_out =
     [Time (Aware 1704103200000000000 0), Time (Aware 1704103200000000000 0)]" by code_simp
  from surviving_timestamps_utc [OF ne one sorts_stable_argsort, of sample_parse]
    h0 h1 h2 sorts_stable_argsort events_preprocessed c1 c2 c3
  show ?thesis
    by simp
qed

text \<open>
  C5 as stated (for every non-empty list of loaded tables) does not hold: on a file without
  timestamp column the method raises KeyError (see C9) and leaves on the instance the
  merged table, whose one row has no timestamp.
\<close>

theorem no_timestamp_after_exception_counterexample:
  "dataframes names_loaded = [(''names.csv'', names_csv)] \<and>
   left_behind (preprocess_data sample_parse stable_argsort names_loaded) = Some [Null]"
  by code_simp

text \<open>
  C7. The events file holds the valid timestamp \<^verbatim>\<open>2024-01-01T09:00:00\<close> (no offset) in a
  column whose first value is written with Z. The format of the column is then the one
  with an offset, the value without offset is not read in it and becomes the missing value,
  and its row is removed instead of being converted: the combined table holds the two rows
  written with an offset only. The same value alone in a column (the second scenario file)
  is read and taken as UTC.
\<close>

theorem naive_timestamp_lost_after_offset:
  "timestamps (merged events_loaded) =
     [Str ''2024-01-01T10:00:00Z'', Str ''not-a-date'', Str ''2024-01-01T12:00:00+02:00'',
      Str ''2024-01-01T09:00:00'', Null] \<and>
   map_sum fst (map_option rows \<circ> combined_df)
     (preprocess_data sample_parse stable_argsort events_loaded) =
     Inr (Some [[Time (Aware 1704103200000000000 0), Num 1],
                [Time (Aware 1704103200000000000 0), Num 4]]) \<and>
   map_sum fst (map_option rows \<circ> combined_df)
     (preprocess_data sample_parse stable_argsort
        (load_files [csv_entry ''b.csv'' b_csv] (DataETL ''data''))) =
     Inr (Some [[Time (Aware 1704099600000000000 0), Num 2]])"
  by code_simp

text \<open>
  C8. On the events file three of the five merged rows are removed, but only two of the
  five timestamps are missing or no date (the string \<^verbatim>\<open>not-a-date\<close> and the missing value);
  the third removed row has the valid timestamp without offset, which \<^verbatim>\<open>pd.to_datetime\<close>
  reads when it stands alone.
\<close>

theorem valid_timestamp_among_dropped:
  "len (merged events_loaded) = 5 \<and>
   map_sum fst (map_option len \<circ> combined_df)
     (preprocess_data sample_parse stable_argsort events_loaded) = Inr (Some 2) \<and>
   to_datetime sample_parse (Series [Str ''2024-01-01T09:00:00'']) =
     Inr [Time (Aware 1704099600000000000 0)] \<and>
   to_datetime sample_parse (Series [Str ''not-a-date'']) = Inr [Null] \<and>
   to_datetime sample_parse (Series [Null]) = Inr [Null]"
  by code_simp

subsection \<open>The order of the rows\<close>

text \<open>
  Whenever \<open>preprocess_data\<close> returns on a non-empty list of loaded tables, and whatever
  sorting routine stands behind \<^verbatim>\<open>sort_values\<close> as long as it sorts, the timestamps of the
  combined table, read row by row, ascend. The order among rows of equal timestamp is the
  one the routine returns for equal keys; the program passes no \<^verbatim>\<open>kind\<close>, so the routine is
  the default \<^verbatim>\<open>'quicksort'\<close>, which is not among the kinds that pandas documents as stable.
\<close>

lemma rows_ascend_after_sort:
  assumes "sorts argsort" and "dataframes s \<noteq> []"
    and "preprocess_data parse argsort s = Inr s'"
  shows "\<exists>out ts. combined_df s' = Some out \<and>
           timestamps out = map (\<lambda>t. Time (Aware t 0)) ts \<and> sorted ts"
proof -
  from preprocess_data_Inr [OF assms(3,2)] obtain j where
    j: "positions ''datetime'' (columns (merged s)) = [j]"
    and jlt: "j < length (columns (merged s))"
    and bound: "\<forall>k \<in> set (argsort (keys_at j (presort parse j (merged s)))).
              k < len (presort parse j (merged s))"
    and out: "combined_df s' =
             Some (reorder (argsort (keys_at j (presort parse j (merged s))))
                     (presort parse j (merged s)))"
    by blast
  let ?pre = "presort parse j (merged s)"
  let ?order = "argsort (keys_at j ?pre)"
  let ?out = "reorder ?order ?pre"
  have pos: "positions ''datetime'' (columns ?out) = [j]"
    using j by (simp add: columns_reorder columns_presort)
  have asc: "sorted (keys_at j ?out)"
    unfolding keys_reorder [OF bound] by (rule sorts_D(2) [OF assms(1)])
  have "cell_at j r = Time (Aware (sort_key_of (cell_at j r)) 0)" if "r \<in> set (rows ?out)" for r
  proof -
    from that rows_reorder_subset [OF bound] have "r \<in> set (rows ?pre)"
      by blast
    from presort_utc [OF this merged_rows_reach [OF jlt]] obtain t where
      "cell_at j r = Time (Aware t 0)" ..
    then show ?thesis
      by (simp add: sort_key_of_def)
  qed
  then have cells: "map (cell_at j) (rows ?out) =
      map (\<lambda>r. Time (Aware (sort_key_of (cell_at j r)) 0)) (rows ?out)"
    by (intro map_cong refl)
  have ts: "timestamps ?out = map (cell_at j) (rows ?out)"
    by (rule timestamps_single [OF pos])
  have ks: "keys_at j ?out = map (\<lambda>r. sort_key_of (cell_at j r)) (rows ?out)"
    by (rule keys_at_def)
  have "timestamps ?out = map (\<lambda>t. Time (Aware t 0)) (keys_at j ?out)"
    unfolding ts ks map_map comp_def by (rule cells)
  with asc out show ?thesis
    by blast
qed

subsection \<open>Exceptions of preprocess_data\<close>

text \<open>
  C9. For every non-empty list of loaded tables none of which has a column \<^verbatim>\<open>datetime\<close> or
  \<^verbatim>\<open>DATETIME\<close>, \<open>preprocess_data\<close> raises KeyError, and \<open>run\<close> lets it through to its caller,
  whatever the directory listing that loaded these tables.
\<close>

theorem missing_timestamp_column_is_fatal:
  assumes "dataframes s \<noteq> []"
    and "\<forall>df \<in> set (map snd (dataframes s)).
           ''datetime'' \<notin> set (columns df) \<and> ''DATETIME'' \<notin> set (columns df)"
  shows "\<exists>s'. preprocess_data parse argsort s = Inl (KeyError ''datetime'', s') \<and>
           (\<forall>listing self io db_path table_name st. load_files listing self = s \<longrightarrow>
              run parse argsort listing io db_path table_name self st =
                Inl (KeyError ''datetime'', s', st))"
proof -
  let ?s' = "(log Preprocessing s)\<lparr>combined_df :=
               Some (standardize (pd_concat (map snd (dataframes s))))\<rparr>"
  have "positions ''datetime'' (columns (standardize (pd_concat (map snd (dataframes s))))) = []"
    using assms(2) by (rule no_timestamp_column)
  then have "assign_datetime parse (standardize (pd_concat (map snd (dataframes s)))) =
             Inl (KeyError ''datetime'')"
    by (simp add: assign_datetime_def getitem_def)
  with assms(1) have pre: "preprocess_data parse argsort s = Inl (KeyError ''datetime'', ?s')"
    by (simp add: preprocess_data_def Let_def log_def)
  then have "\<forall>listing self io db_path table_name st. load_files listing self = s \<longrightarrow>
      run parse argsort listing io db_path table_name self st =
        Inl (KeyError ''datetime'', ?s', st)"
    by (simp add: run_def)
  with pre show ?thesis by blast
qed

text \<open>
  A directory with one file whose columns are \<^verbatim>\<open>name\<close> and \<^verbatim>\<open>val\<close>.
\<close>

theorem missing_timestamp_column_is_fatal_witness:
  "dataframes names_loaded = [(''names.csv'', names_csv)] \<and>
   ''datetime'' \<notin> set (columns names_csv) \<and> ''DATETIME'' \<notin> set (columns names_csv) \<and>
   map_sum fst combined_df (preprocess_data sample_parse stable_argsort names_loaded) =
     Inl (KeyError ''datetime'') \<and>
   map_sum fst fst
     (run sample_parse stable_argsort [csv_entry ''names.csv'' names_csv] Succeeds
        ''events.db'' ''events'' (DataETL ''data'') Map.empty) = Inl (KeyError ''datetime'')"
proof -
  have h1: "dataframes names_loaded = [(''names.csv'', names_csv)]" by code_simp
  have h2: "''datetime'' \<notin> set (columns names_csv)" by code_simp
  have h3: "''DATETIME'' \<notin> set (columns names_csv)" by code_simp
  from h1 have ne: "dataframes names_loaded \<noteq> []"
    by simp
  from h1 h2 h3 have none: "\<forall>df \<in> set (map snd (dataframes names_loaded)).
      ''datetime'' \<notin> set (columns df) \<and> ''DATETIME'' \<notin> set (columns df)"
    by simp
  from missing_timestamp_column_is_fatal [OF ne none, of sample_parse stable_argsort]
  obtain s' where
    pre: "preprocess_data sample_parse stable_argsort names_loaded = Inl (KeyError ''datetime'', s')"
    and through: "\<forall>listing self io db_path table_name st.
      load_files listing self = names_loaded \<longrightarrow>
      run sample_parse stable_argsort listing io db_path table_name self st =
        Inl (KeyError ''datetime'', s', st)"
    by blast
  have "load_files [csv_entry ''names.csv'' names_csv] (DataETL ''data'') = names_loaded"
    by (simp add: names_loaded_def)
  with through have "run sample_parse stable_argsort [csv_entry ''names.csv'' names_csv] Succeeds
      ''events.db'' ''events'' (DataETL ''data'') Map.empty = Inl (KeyError ''datetime'', s', Map.empty)"
    by blast
  with pre h1 h2 h3 show ?thesis
    by simp
qed

text \<open>
  C4. The scenario of the two files, one with the column \<^verbatim>\<open>DATETIME\<close> and one with the
  column \<^verbatim>\<open>datetime\<close>. The merged table has both columns; the renaming turns the first into
  a second column \<^verbatim>\<open>datetime\<close>; reading \<^verbatim>\<open>df['datetime']\<close> then yields a data frame of two
  columns, on which \<^verbatim>\<open>pd.to_datetime\<close> raises ValueError. The method does not return, for any
  parser and any sorting routine; the instance is left with the merged, renamed table of
  two rows, not converted and not sorted.
\<close>

theorem scenario_raises:
  "preprocess_data parse argsort (load_files scenario_dir (DataETL dir)) =
     Inl (ValueError,
          (load_files scenario_dir (DataETL dir))
            \<lparr>combined_df := Some \<lparr>columns = [''datetime'', ''val'', ''datetime''],
                 rows = [[Str ''2024-01-01T10:00:00Z'', Num 1, Null],
                         [Null, Num 2, Str ''2024-01-01T09:00:00'']]\<rparr>,
              logged := [Scanning dir, Loaded ''a.csv'', Loaded ''b.csv'', Preprocessing]\<rparr>)"
  by code_simp

subsection \<open>Writing the database\<close>

text \<open>
  C10. When \<open>preprocess_data\<close> leaves no combined table (nothing was loaded) or an empty
  one (every row was removed), \<open>create_database\<close> logs an error and leaves the stores as
  they are, and \<open>run\<close> returns 0. The instance \<open>run\<close> starts from has no combined table
  unless it has loaded tables, as every instance has that the methods produce from a fresh
  one.
\<close>

theorem nothing_to_write_returns_zero:
  assumes "dataframes self = [] \<longrightarrow> combined_df self = None"
    and "preprocess_data parse argsort (load_files listing self) = Inr s1"
    and "combined_df s1 = None \<or> (\<exists>df. combined_df s1 = Some df \<and> df_empty df)"
  shows "create_database io db_path table_name s1 st = (log NoData s1, st) \<and>
         run parse argsort listing io db_path table_name self st = Inr (0, log NoData s1, st)"
proof -
  have cd: "create_database io db_path table_name s1 st = (log NoData s1, st)"
    using assms(3) by (rule create_database_nothing)
  have count: "(case combined_df s1 of Some df \<Rightarrow> len df | None \<Rightarrow> 0) = 0"
  proof (cases "dataframes (load_files listing self) = []")
    case True
    then have "dataframes self = []"
      by (rule load_files_keeps_dataframes)
    with assms(1) have "combined_df (load_files listing self) = None"
      by (simp add: load_files_combined_df)
    moreover have "s1 = log NoDataframes (load_files listing self)"
      using assms(2) preprocess_data_nothing_loaded [OF True] by simp
    ultimately show ?thesis
      by (simp add: combined_df_log)
  next
    case False
    from preprocess_data_has_column [OF assms(2) False] obtain out where
      out: "combined_df s1 = Some out" and col: "''datetime'' \<in> set (columns out)"
      by blast
    from assms(3) out have "df_empty out"
      by simp
    with col have "rows out = []"
      by (auto simp: df_empty_def)
    with out show ?thesis
      by (simp add: len_def)
  qed
  have "run parse argsort listing io db_path table_name self st = Inr (0, log NoData s1, st)"
    using assms(2) cd count by (simp add: run_def combined_df_log)
  with cd show ?thesis by simp
qed

text \<open>
  A fresh instance on a directory whose only file has a string that is no date as its
  only timestamp.
\<close>

theorem nothing_to_write_returns_zero_witness:
  "combined_df (DataETL ''data'') = None \<and>
   preprocess_data sample_parse stable_argsort
     (load_files [csv_entry ''junk.csv'' junk_csv] (DataETL ''data'')) = Inr junk_done \<and>
   combined_df junk_done = Some junk_out \<and> df_empty junk_out \<and>
   create_database Succeeds ''events.db'' ''events'' junk_done Map.empty =
     (log NoData junk_done, Map.empty) \<and>
   run sample_parse stable_argsort [csv_entry ''junk.csv'' junk_csv] Succeeds
     ''events.db'' ''events'' (DataETL ''data'') Map.empty =
     Inr (0, log NoData junk_done, Map.empty)"
proof -
  have h1: "combined_df (DataETL ''data'') = None" by code_simp
  have h2: "combined_df junk_done = Some junk_out" by code_simp
  have h3: "df_empty junk_out" by code_simp
  from h1 have inv: "dataframes (DataETL ''data'') = [] \<longrightarrow> combined_df (DataETL ''data'') = None"
    by simp
  from h2 h3 have absent: "combined_df junk_done = None \<or>
      (\<exists>df. combined_df junk_done = Some df \<and> df_empty df)"
    by simp
  from nothing_to_write_returns_zero [OF inv junk_preprocessed absent] h1 h2 h3 junk_preprocessed
  show ?thesis
    by simp
qed

text \<open>
  C2, as the program has it. When the connection or the write fails and there are rows to
  write, \<open>create_database\<close> catches the exception and logs it, and \<open>run\<close> returns normally
  with the number of rows of the combined table, the number it also returns after a
  successful write. The failure shows in the log only.
\<close>

theorem write_failure_only_logged:
  assumes "io \<noteq> Succeeds"
    and "preprocess_data parse argsort (load_files listing self) = Inr s1"
    and "combined_df s1 = Some df" and "\<not> df_empty df"
  shows "(\<exists>st'. run parse argsort listing io db_path table_name self st =
                  Inr (len df, log DbFailed (log (Writing db_path) s1), st')) \<and>
         (\<exists>s' st'. run parse argsort listing Succeeds db_path table_name self st =
                  Inr (len df, s', st'))"
proof -
  have ok: "\<exists>s' st'. run parse argsort listing Succeeds db_path table_name self st =
                  Inr (len df, s', st')"
    using assms(2-4) by (simp add: run_def create_database_def combined_df_log)
  have "\<exists>st'. run parse argsort listing io db_path table_name self st =
                  Inr (len df, log DbFailed (log (Writing db_path) s1), st')"
  proof (cases io)
    case Succeeds
    with assms(1) show ?thesis by simp
  next
    case ConnectFails
    with assms(2-4) show ?thesis
      by (simp add: run_def create_database_def combined_df_log)
  next
    case WriteFails
    with assms(2-4) show ?thesis
      by (simp add: run_def create_database_def combined_df_log)
  qed
  with ok show ?thesis by simp
qed

text \<open>
  A fresh instance on a directory with the second scenario file, and a write that fails.
\<close>

theorem write_failure_only_logged_witness:
  "WriteFails \<noteq> Succeeds \<and>
   preprocess_data sample_parse stable_argsort
     (load_files [csv_entry ''b.csv'' b_csv] (DataETL ''data'')) = Inr b_done \<and>
   combined_df b_done = Some b_out \<and> \<not> df_empty b_out \<and> len b_out = 1 \<and>
   map_sum fst (logged \<circ> fst \<circ> snd)
     (run sample_parse stable_argsort [csv_entry ''b.csv'' b_csv] WriteFails
        ''events.db'' ''events'' (DataETL ''data'') Map.empty) =
     Inr [Scanning ''data'', Loaded ''b.csv'', Preprocessing, PreprocessingComplete 1,
          Writing ''events.db'', DbFailed]"
proof -
  have h1: "WriteFails \<noteq> Succeeds" by simp
  have h2: "combined_df b_done = Some b_out" by code_simp
  have h3: "\<not> df_empty b_out" by code_simp
  have c1: "len b_out = 1" by code_simp
  have c2: "logged (log DbFailed (log (Writing ''events.db'') b_done)) =
      [Scanning ''data'', Loaded ''b.csv'', Preprocessing, PreprocessingComplete 1,
       Writing ''events.db'', DbFailed]" by code_simp
  from write_failure_only_logged [OF h1 b_preprocessed h2 h3, of "''events.db''" "''events''" Map.empty]
  obtain st' where "run sample_parse stable_argsort [csv_entry ''b.csv'' b_csv] WriteFails
      ''events.db'' ''events'' (DataETL ''data'') Map.empty =
      Inr (len b_out, log DbFailed (log (Writing ''events.db'') b_done), st')"
    by blast
  with h1 b_preprocessed h2 h3 c1 c2 show ?thesis
    by simp
qed

text \<open>
  C2 as stated (a row count of 0, or an error, when the write fails) does not hold: with
  one valid row and a failing write, \<open>run\<close> returns 1.
\<close>

theorem write_failure_count_counterexample:
  "map_sum fst fst
     (run sample_parse stable_argsort [csv_entry ''b.csv'' b_csv] WriteFails
        ''events.db'' ''events'' (DataETL ''data'') Map.empty) = Inr 1"
  by code_simp

text \<open>
  C3. \<open>load_files\<close> appends to \<^verbatim>\<open>self.dataframes\<close> and nothing ever clears that list, so a
  second \<open>run\<close> on the same instance and the same directory merges every file twice. With
  one file of one row, the first call returns 1 and writes a table of one row; the second
  call returns 2 and replaces it by a table that holds the row twice.
\<close>

theorem second_run_doubles_rows:
  "(case run sample_parse stable_argsort [csv_entry ''b.csv'' b_csv] Succeeds
           ''events.db'' ''events'' (DataETL ''data'') Map.empty of
      Inl e \<Rightarrow> False
    | Inr (n1, s1, st1) \<Rightarrow>
        n1 = 1 \<and> map_option rows (tables st1 ''events.db'' ''events'') =
                   Some [[Time (Aware 1704099600000000000 0), Num 2]] \<and>
        (case run sample_parse stable_argsort [csv_entry ''b.csv'' b_csv] Succeeds
                ''events.db'' ''events'' s1 st1 of
           Inl e \<Rightarrow> False
         | Inr (n2, s2, st2) \<Rightarrow>
             n2 = 2 \<and> map_option rows (tables st2 ''events.db'' ''events'') =
                   Some [[Time (Aware 1704099600000000000 0), Num 2],
                         [Time (Aware 1704099600000000000 0), Num 2]]))"
  by code_simp

end
